theory Spec2Isabelle
  imports Complex_Main "HOL-Library.Sublist"
begin

text \<open>
  A model of \<open>ResilientPrismaClient\<close> and its utilities: the error classifier, the backoff
  calculator, the connection life cycle (\<open>connect\<close>, \<open>disconnect\<close>, \<open>ensureConnected\<close>),
  the operation interceptor \<open>executeWithReconnect\<close>, the periodic refresh and the
  statistics snapshot.  Asynchronous methods are run to completion one at a time; what they
  await from the outside (the Prisma primitives, the clock, the heap, the wrapped operation)
  is read from a world that also records every call and event.
\<close>

section \<open>JavaScript values that can be thrown\<close>

text \<open>
  Anything can be thrown in JavaScript, and the classifier takes \<open>unknown\<close>.  The model
  keeps the values the utilities distinguish: primitives, and objects given by their own
  properties (an association list) together with a flag telling whether the object is an
  \<open>Error\<close> instance.  Property values are primitives.  Numbers held in thrown values are
  integers (no \<open>NaN\<close>, no fractions); strings are lists of 8-bit characters.
\<close>

datatype jsprim = PUndefined | PNull | PBool bool | PNum int | PStr string

datatype jsval = JPrim jsprim | JObj bool "(string \<times> jsprim) list"

text \<open>Truthiness, as used by \<open>!error\<close>, \<open>err.code && ...\<close> and \<open>x || d\<close>.\<close>

fun truthy :: "jsprim \<Rightarrow> bool" where
  "truthy PUndefined = False"
| "truthy PNull = False"
| "truthy (PBool b) = b"
| "truthy (PNum n) = (n \<noteq> 0)"
| "truthy (PStr s) = (s \<noteq> [])"

fun truthyVal :: "jsval \<Rightarrow> bool" where
  "truthyVal (JPrim p) = truthy p"
| "truthyVal (JObj isErr props) = True"

text \<open>\<open>typeof v === 'object'\<close>: objects, and \<open>null\<close>.\<close>

fun typeofObject :: "jsval \<Rightarrow> bool" where
  "typeofObject (JPrim PNull) = True"
| "typeofObject (JPrim p) = False"
| "typeofObject (JObj isErr props) = True"

text \<open>
  Property read \<open>v.name\<close> on an object: an own property if there is one; an \<open>Error\<close>
  instance inherits \<open>message = ''\<close> from its prototype; anything else is \<open>undefined\<close>.
\<close>

fun getProp :: "jsval \<Rightarrow> string \<Rightarrow> jsprim" where
  "getProp (JObj isErr props) name =
     (case map_of props name of
        Some v \<Rightarrow> v
      | None \<Rightarrow> if isErr \<and> name = ''message'' then PStr [] else PUndefined)"
| "getProp (JPrim p) name = PUndefined"

text \<open>\<open>'message' in error\<close>, for an object.\<close>

fun hasProp :: "jsval \<Rightarrow> string \<Rightarrow> bool" where
  "hasProp (JObj isErr props) name = (map_of props name \<noteq> None \<or> (isErr \<and> name = ''message''))"
| "hasProp (JPrim p) name = False"

section \<open>Strings\<close>

text \<open>\<open>String.prototype.toLowerCase\<close> on ASCII text: \<open>A\<close>..\<open>Z\<close> go to \<open>a\<close>..\<open>z\<close>.\<close>

definition lowerChar :: "char \<Rightarrow> char" where
  "lowerChar c =
     (case map_of (zip ''ABCDEFGHIJKLMNOPQRSTUVWXYZ'' ''abcdefghijklmnopqrstuvwxyz'') c of
        Some l \<Rightarrow> l
      | None \<Rightarrow> c)"

definition toLowerCase :: "string \<Rightarrow> string" where
  "toLowerCase s = map lowerChar s"

text \<open>\<open>String.prototype.includes\<close>: does \<open>k\<close> occur in \<open>s\<close> as a contiguous piece.\<close>

fun includesStr :: "string \<Rightarrow> string \<Rightarrow> bool" where
  "includesStr [] k = (k = [])"
| "includesStr (c # s) k = (prefix k (c # s) \<or> includesStr s k)"

text \<open>Decimal rendering of a number inside a template literal or by \<open>String(n)\<close>.\<close>

definition digitChar :: "nat \<Rightarrow> char" where
  "digitChar d = ''0123456789'' ! d"

fun showNat :: "nat \<Rightarrow> string" where
  "showNat n = (if n < 10 then [digitChar n] else showNat (n div 10) @ [digitChar (n mod 10)])"

declare showNat.simps [simp del]

definition showInt :: "int \<Rightarrow> string" where
  "showInt i = (if i < 0 then CHR ''-'' # showNat (nat (- i)) else showNat (nat i))"

section \<open>Error utilities\<close>

definition CONNECTION_ERROR_CODES :: "string list" where
  "CONNECTION_ERROR_CODES = [''P1001'', ''P1008'', ''P1017'', ''P2024'']"

definition connectionKeywords :: "string list" where
  "connectionKeywords =
     [''connection'', ''connect'', ''disconnect'', ''econnrefused'',
      ''etimedout'', ''enotfound'', ''socket'', ''network'']"

text \<open>
  The \<open>TypeError\<close> raised when a method is called on a value that does not have it.  Its
  message is the engine's, so only its kind is kept.
\<close>

definition typeError :: jsval where
  "typeError = JObj True [(''name'', PStr ''TypeError'')]"

text \<open>\<open>CONNECTION_ERROR_CODES.includes(err.code)\<close>: only a string can equal a string.\<close>

fun codesInclude :: "jsprim \<Rightarrow> bool" where
  "codesInclude (PStr c) = (c \<in> set CONNECTION_ERROR_CODES)"
| "codesInclude p = False"

text \<open>
  \<open>isConnectionError\<close>.  The message is read as \<open>err.message?.toLowerCase() || ''\<close>:
  \<open>undefined\<close> and \<open>null\<close> short-circuit to \<open>''\<close>, a string is lowered, and any other
  value has no \<open>toLowerCase\<close>, so the call throws.
\<close>

definition isConnectionError :: "jsval \<Rightarrow> jsval + bool" where
  "isConnectionError error =
     (if \<not> truthyVal error \<or> \<not> typeofObject error then Inr False
      else if truthy (getProp error ''code'') \<and> codesInclude (getProp error ''code'')
        then Inr True
      else case getProp error ''message'' of
             PUndefined \<Rightarrow> Inr (list_ex (\<lambda>keyword. includesStr [] keyword) connectionKeywords)
           | PNull \<Rightarrow> Inr (list_ex (\<lambda>keyword. includesStr [] keyword) connectionKeywords)
           | PStr s \<Rightarrow>
               Inr (list_ex (\<lambda>keyword. includesStr (toLowerCase s) keyword) connectionKeywords)
           | PBool b \<Rightarrow> Inl typeError
           | PNum n \<Rightarrow> Inl typeError)"

definition isRetryableError :: "jsval \<Rightarrow> jsval + bool" where
  "isRetryableError error = isConnectionError error"

text \<open>\<open>String(v)\<close> for a primitive.\<close>

fun stringOf :: "jsprim \<Rightarrow> string" where
  "stringOf PUndefined = ''undefined''"
| "stringOf PNull = ''null''"
| "stringOf (PBool b) = (if b then ''true'' else ''false'')"
| "stringOf (PNum n) = showInt n"
| "stringOf (PStr s) = s"

text \<open>
  \<open>getErrorMessage\<close>.  The last line, \<open>String(error)\<close>, is reached by truthy booleans
  and numbers and by plain objects without a message, which print as
  \<open>[object Object]\<close>.
\<close>

fun getErrorMessage :: "jsval \<Rightarrow> string" where
  "getErrorMessage (JPrim p) =
     (if \<not> truthy p then ''Unknown error''
      else case p of PStr s \<Rightarrow> s | _ \<Rightarrow> stringOf p)"
| "getErrorMessage (JObj isErr props) =
     (if isErr then stringOf (getProp (JObj isErr props) ''message'')
      else if hasProp (JObj isErr props) ''message''
        then stringOf (getProp (JObj isErr props) ''message'')
      else ''[object Object]'')"

section \<open>The classification policy as the specification words it\<close>

text \<open>
  A message contains a keyword, compared case-insensitively, when some contiguous piece of
  the message equals the keyword up to the case of its letters.
\<close>

definition containsIgnoringCase :: "string \<Rightarrow> string \<Rightarrow> bool" where
  "containsIgnoringCase msg keyword =
     list_ex (\<lambda>piece. toLowerCase piece = toLowerCase keyword) (sublists msg)"

text \<open>
  An error is recoverable when it is an object that carries one of the four
  connection-failure codes, or whose message is a text containing one of the eight
  keywords.
\<close>

definition specRecoverable :: "jsval \<Rightarrow> bool" where
  "specRecoverable v =
     (case v of
        JPrim p \<Rightarrow> False
      | JObj isErr props \<Rightarrow>
          getProp v ''code'' \<in> set (map PStr [''P1001'', ''P1008'', ''P1017'', ''P2024''])
          \<or> (case getProp v ''message'' of
                PStr msg \<Rightarrow>
                  list_ex (containsIgnoringCase msg)
                    [''connection'', ''connect'', ''disconnect'', ''econnrefused'',
                     ''etimedout'', ''enotfound'', ''socket'', ''network'']
              | _ \<Rightarrow> False))"

text \<open>A message property that is a string, or is missing (\<open>undefined\<close> or \<open>null\<close>).\<close>

fun textOrAbsent :: "jsprim \<Rightarrow> bool" where
  "textOrAbsent (PBool b) = False"
| "textOrAbsent (PNum n) = False"
| "textOrAbsent p = True"

section \<open>Backoff utilities\<close>

text \<open>
  JavaScript numbers are modelled as exact rationals: rounding, infinities and \<open>NaN\<close> of
  IEEE doubles are outside the model.  \<open>Math.pow(2, attempt - 1)\<close> is \<open>2 powi (attempt - 1)\<close>,
  which is \<open>1/2\<close> at attempt \<open>0\<close> as in the source.
\<close>

datatype BackoffStrategy = Linear | Exponential

definition calculateBackoff :: "int \<Rightarrow> rat \<Rightarrow> rat \<Rightarrow> BackoffStrategy \<Rightarrow> rat" where
  "calculateBackoff attempt initialDelay maxDelay strategy =
     (let delay = (if strategy = Exponential
                   then initialDelay * (2 powi (attempt - 1))
                   else initialDelay * of_int attempt)
      in min delay maxDelay)"

section \<open>Configuration, manager state and the outside world\<close>

text \<open>
  \<open>this.config\<close> after the constructor has merged the caller's options into
  \<open>DEFAULT_CONFIG\<close>.  Only the options read by the methods below are kept.  A numeric
  option that is \<open>0\<close> is falsy and is replaced by the default at its use
  (\<open>x || d\<close>); both backoff strategies are truthy strings.
\<close>

record reconnectConfig =
  maxAttempts :: nat
  initialDelay :: rat
  maxDelay :: rat
  backoff :: BackoffStrategy

record memoryConfig =
  autoGC :: bool
  gcThreshold :: rat

record ErrorContext =
  ctxOperation :: string
  retryCount :: nat
  duration :: int

text \<open>
  The custom error handler is awaited inside the \<open>catch\<close> block: \<open>Some e\<close> is a handler
  that throws (or rejects with) \<open>e\<close>.
\<close>

record config =
  reconnect :: reconnectConfig
  memory :: memoryConfig
  onError :: "(jsval \<Rightarrow> ErrorContext \<Rightarrow> jsval option) option"

definition DEFAULT_CONFIG :: config where
  "DEFAULT_CONFIG =
     \<lparr>reconnect = \<lparr>maxAttempts = 3, initialDelay = 1000, maxDelay = 10000,
                    backoff = Exponential\<rparr>,
      memory = \<lparr>autoGC = True, gcThreshold = 85 / 100\<rparr>,
      onError = None\<rparr>"

definition orDefault :: "'a::zero \<Rightarrow> 'a \<Rightarrow> 'a" where
  "orDefault x d = (if x = 0 then d else x)"

text \<open>
  The private fields of \<open>ResilientPrismaClient\<close>.  \<open>prisma\<close> identifies the wrapped
  client object handed to the constructor; times are milliseconds since the epoch.
\<close>

record manager =
  prisma :: nat
  config :: config
  connected :: bool
  reconnectAttempts :: nat
  totalReconnects :: nat
  lastSuccessfulConnection :: "int option"
  queryCount :: nat
  errorCount :: nat

datatype event =
    Connect
  | Disconnect "jsval option"
  | Reconnect nat
  | ReconnectSuccess
  | ReconnectFailed jsval
  | MemoryHigh rat
  | GcExecuted

text \<open>
  Everything outside the manager.  The first five fields say how the outside answers:
  the outcome of the \<open>k\<close>-th call of \<open>$connect\<close> and of \<open>$disconnect\<close> (\<open>None\<close>
  resolves, \<open>Some e\<close> rejects with \<open>e\<close>), the \<open>k\<close>-th reading of the clock, the \<open>k\<close>-th
  heap sample, and whether \<open>global.gc\<close> exists.  The other fields record what the manager
  has done so far: calls made, delays slept, handler invocations and events emitted, in
  order.  Event listeners and the logger are assumed not to throw; log lines are not
  recorded.
\<close>

record world =
  connectOutcome :: "nat \<Rightarrow> jsval option"
  disconnectOutcome :: "nat \<Rightarrow> jsval option"
  clock :: "nat \<Rightarrow> int"
  heapUsage :: "nat \<Rightarrow> rat"
  gcAvailable :: bool
  connectCalls :: nat
  disconnectCalls :: nat
  clockReads :: nat
  heapSamples :: nat
  gcRuns :: nat
  operationCalls :: nat
  handlerCalls :: "(jsval \<times> ErrorContext) list"
  slept :: "rat list"
  emitted :: "event list"

definition emit :: "event \<Rightarrow> world \<Rightarrow> world" where
  "emit ev w = w\<lparr>emitted := emitted w @ [ev]\<rparr>"

definition dateNow :: "world \<Rightarrow> int \<times> world" where
  "dateNow w = (clock w (clockReads w), w\<lparr>clockReads := Suc (clockReads w)\<rparr>)"

definition sleep :: "rat \<Rightarrow> world \<Rightarrow> world" where
  "sleep ms w = w\<lparr>slept := slept w @ [ms]\<rparr>"

definition prismaConnect :: "world \<Rightarrow> jsval option \<times> world" where
  "prismaConnect w = (connectOutcome w (connectCalls w), w\<lparr>connectCalls := Suc (connectCalls w)\<rparr>)"

definition prismaDisconnect :: "world \<Rightarrow> jsval option \<times> world" where
  "prismaDisconnect w =
     (disconnectOutcome w (disconnectCalls w), w\<lparr>disconnectCalls := Suc (disconnectCalls w)\<rparr>)"

definition getHeapUsagePercent :: "world \<Rightarrow> rat \<times> world" where
  "getHeapUsagePercent w = (heapUsage w (heapSamples w), w\<lparr>heapSamples := Suc (heapSamples w)\<rparr>)"

definition triggerGC :: "world \<Rightarrow> bool \<times> world" where
  "triggerGC w = (if gcAvailable w then (True, w\<lparr>gcRuns := Suc (gcRuns w)\<rparr>) else (False, w))"

text \<open>
  The operation handed to the interceptor is a thunk; \<open>operation k\<close> is what it does when
  it is the \<open>k\<close>-th operation call made through the manager: \<open>Inl e\<close> throws \<open>e\<close>,
  \<open>Inr v\<close> returns \<open>v\<close>.
\<close>

definition callOperation :: "(nat \<Rightarrow> jsval + 'r) \<Rightarrow> world \<Rightarrow> (jsval + 'r) \<times> world" where
  "callOperation operation w =
     (operation (operationCalls w), w\<lparr>operationCalls := Suc (operationCalls w)\<rparr>)"

definition callHandler ::
  "(jsval \<Rightarrow> ErrorContext \<Rightarrow> jsval option) \<Rightarrow> jsval \<Rightarrow> ErrorContext \<Rightarrow> world \<Rightarrow> jsval option \<times> world"
where
  "callHandler handler error context w =
     (handler error context, w\<lparr>handlerCalls := handlerCalls w @ [(error, context)]\<rparr>)"

definition newError :: "string \<Rightarrow> jsval" where
  "newError msg = JObj True [(''message'', PStr msg)]"

section \<open>The connection life cycle\<close>

text \<open>
  Every \<open>async\<close> method returns its outcome (\<open>Inl e\<close>: the promise rejects with \<open>e\<close>)
  together with the manager and the world as it leaves them.
\<close>

definition connect :: "manager \<Rightarrow> world \<Rightarrow> (jsval + unit) \<times> manager \<times> world" where
  "connect m w =
     (case prismaConnect w of
        (None, w1) \<Rightarrow>
          (let (now, w2) = dateNow w1;
               m1 = m\<lparr>connected := True, lastSuccessfulConnection := Some now,
                      reconnectAttempts := 0\<rparr>
           in (Inr (), m1, emit Connect w2))
      | (Some error, w1) \<Rightarrow>
          (Inl error, m\<lparr>connected := False\<rparr>, emit (Disconnect (Some error)) w1))"

definition disconnect :: "manager \<Rightarrow> world \<Rightarrow> (jsval + unit) \<times> manager \<times> world" where
  "disconnect m w =
     (case prismaDisconnect w of
        (None, w1) \<Rightarrow> (Inr (), m\<lparr>connected := False\<rparr>, w1)
      | (Some error, w1) \<Rightarrow> (Inr (), m\<lparr>connected := False\<rparr>, w1))"

text \<open>The \<open>try\<close> block of one reconnection attempt.\<close>

definition reconnectAttempt :: "nat \<Rightarrow> manager \<Rightarrow> world \<Rightarrow> (jsval + unit) \<times> manager \<times> world" where
  "reconnectAttempt attempt m w =
     (case disconnect m w of
        (Inl error, m1, w1) \<Rightarrow> (Inl error, m1, w1)
      | (Inr u, m1, w1) \<Rightarrow>
          (let delay = calculateBackoff (int attempt)
                         (orDefault (initialDelay (reconnect (config m1))) 1000)
                         (orDefault (maxDelay (reconnect (config m1))) 10000)
                         (backoff (reconnect (config m1)));
               w2 = sleep delay w1
           in case connect m1 w2 of
                (Inl error, m2, w3) \<Rightarrow> (Inl error, m2, w3)
              | (Inr u', m2, w3) \<Rightarrow>
                  (Inr (), m2\<lparr>totalReconnects := Suc (totalReconnects m2)\<rparr>,
                   emit ReconnectSuccess w3)))"

definition reconnectFailure :: "nat \<Rightarrow> jsval \<Rightarrow> jsval" where
  "reconnectFailure maxAtt error =
     newError (''Failed to reconnect after '' @ showNat maxAtt @ '' attempts: ''
               @ getErrorMessage error)"

text \<open>The \<open>for\<close> loop of \<open>ensureConnected\<close>; leaving it at the bottom returns normally.\<close>

function reconnectLoop ::
  "nat \<Rightarrow> nat \<Rightarrow> manager \<Rightarrow> world \<Rightarrow> (jsval + unit) \<times> manager \<times> world"
where
  "reconnectLoop attempt maxAtt m w =
     (if attempt \<le> maxAtt then
        (case reconnectAttempt attempt (m\<lparr>reconnectAttempts := attempt\<rparr>)
                (emit (Reconnect attempt) w) of
           (Inr u, m1, w1) \<Rightarrow> (Inr (), m1, w1)
         | (Inl error, m1, w1) \<Rightarrow>
             if attempt = maxAtt
             then (Inl (reconnectFailure maxAtt error), m1, emit (ReconnectFailed error) w1)
             else reconnectLoop (Suc attempt) maxAtt m1 w1)
      else (Inr (), m, w))"
  by pat_completeness auto
termination
  by (relation "measure (\<lambda>(attempt, maxAtt, m, w). Suc maxAtt - attempt)") auto

declare reconnectLoop.simps [simp del]

definition ensureConnected :: "manager \<Rightarrow> world \<Rightarrow> (jsval + unit) \<times> manager \<times> world" where
  "ensureConnected m w =
     (if connected m then (Inr (), m, w)
      else reconnectLoop 1 (orDefault (maxAttempts (reconnect (config m))) 3) m w)"

section \<open>The operation interceptor\<close>

text \<open>The memory check after a successful operation, run when \<open>autoGC\<close> is set.\<close>

definition memoryCheck :: "manager \<Rightarrow> world \<Rightarrow> world" where
  "memoryCheck m w =
     (let (usage, w1) = getHeapUsagePercent w;
          threshold = orDefault (gcThreshold (memory (config m))) (85 / 100)
      in if usage \<ge> threshold then
           (let w2 = emit (MemoryHigh (usage * 100)) w1;
                (ran, w3) = triggerGC w2
            in if ran then emit GcExecuted w3 else w3)
         else w1)"

text \<open>
  The \<open>try\<close> block of \<open>executeWithReconnect\<close>.  The clock is read once more for the
  duration, which is only logged.
\<close>

definition tryBlock ::
  "(nat \<Rightarrow> jsval + 'r) \<Rightarrow> manager \<Rightarrow> world \<Rightarrow> (jsval + 'r) \<times> manager \<times> world"
where
  "tryBlock operation m w =
     (case ensureConnected m w of
        (Inl error, m1, w1) \<Rightarrow> (Inl error, m1, w1)
      | (Inr u, m1, w1) \<Rightarrow>
          (case callOperation operation w1 of
             (Inl error, w2) \<Rightarrow> (Inl error, m1, w2)
           | (Inr result, w2) \<Rightarrow>
               (let m2 = m1\<lparr>queryCount := Suc (queryCount m1)\<rparr>;
                    (now, w3) = dateNow w2;
                    w4 = (if autoGC (memory (config m2)) then memoryCheck m2 w3 else w3)
                in (Inr result, m2, w4))))"

text \<open>The \<open>catch\<close> block, entered with whatever the \<open>try\<close> block threw.\<close>

definition catchBlock ::
  "(nat \<Rightarrow> jsval + 'r) \<Rightarrow> string \<Rightarrow> int \<Rightarrow> jsval \<Rightarrow> manager \<Rightarrow> world
     \<Rightarrow> (jsval + 'r) \<times> manager \<times> world"
where
  "catchBlock operation operationName startTime error m w =
     (let m1 = m\<lparr>errorCount := Suc (errorCount m)\<rparr>;
          (now, w1) = dateNow w;
          context = \<lparr>ctxOperation = operationName, retryCount = reconnectAttempts m1,
                     duration = now - startTime\<rparr>;
          (thrown, w2) = (case onError (config m1) of
                            None \<Rightarrow> (None, w1)
                          | Some handler \<Rightarrow> callHandler handler error context w1)
      in case thrown of
           Some handlerError \<Rightarrow> (Inl handlerError, m1, w2)
         | None \<Rightarrow>
             (case isRetryableError error of
                Inl classifierError \<Rightarrow> (Inl classifierError, m1, w2)
              | Inr True \<Rightarrow>
                  (case ensureConnected (m1\<lparr>connected := False\<rparr>)
                          (emit (Disconnect (Some error)) w2) of
                     (Inl reconnectError, m3, w4) \<Rightarrow> (Inl reconnectError, m3, w4)
                   | (Inr u, m3, w4) \<Rightarrow>
                       (case callOperation operation w4 of (outcome, w5) \<Rightarrow> (outcome, m3, w5)))
              | Inr False \<Rightarrow> (Inl error, m1, w2)))"

definition executeWithReconnect ::
  "(nat \<Rightarrow> jsval + 'r) \<Rightarrow> string \<Rightarrow> manager \<Rightarrow> world \<Rightarrow> (jsval + 'r) \<times> manager \<times> world"
where
  "executeWithReconnect operation operationName m w =
     (let (startTime, w0) = dateNow w
      in case tryBlock operation m w0 of
           (Inr result, m1, w1) \<Rightarrow> (Inr result, m1, w1)
         | (Inl error, m1, w1) \<Rightarrow> catchBlock operation operationName startTime error m1 w1)"

section \<open>The periodic refresh and the statistics\<close>

text \<open>One run of the callback that \<open>startPeriodicRefresh\<close> hands to \<open>setInterval\<close>.\<close>

definition refreshTick :: "manager \<Rightarrow> world \<Rightarrow> manager \<times> world" where
  "refreshTick m w =
     (case (case disconnect (m\<lparr>connected := False\<rparr>) w of
              (Inl error, m1, w1) \<Rightarrow> (Inl error, m1, w1)
            | (Inr u, m1, w1) \<Rightarrow> ensureConnected m1 w1) of
        (Inr u, m2, w2) \<Rightarrow> (m2, w2)
      | (Inl error, m2, w2) \<Rightarrow> (m2\<lparr>connected := False\<rparr>, w2))"

text \<open>
  The snapshot returned by \<open>getConnectionStats\<close>.  \<open>lastSuccessfulConnection\<close> is kept as
  the timestamp; its rendering as an ISO-8601 string is not modelled.
\<close>

record ConnectionStats =
  stats_isConnected :: bool
  stats_reconnectAttempts :: nat
  stats_totalReconnects :: nat
  stats_lastSuccessfulConnection :: "int option"
  stats_uptime :: int
  stats_queryCount :: nat
  stats_errorCount :: nat

definition getConnectionStats :: "manager \<Rightarrow> world \<Rightarrow> ConnectionStats \<times> world" where
  "getConnectionStats m w =
     (let (uptime, w1) = (case lastSuccessfulConnection m of
                            Some t \<Rightarrow> (let (now, w') = dateNow w in (now - t, w'))
                          | None \<Rightarrow> (0, w))
      in (\<lparr>stats_isConnected = connected m,
           stats_reconnectAttempts = reconnectAttempts m,
           stats_totalReconnects = totalReconnects m,
           stats_lastSuccessfulConnection = lastSuccessfulConnection m,
           stats_uptime = uptime,
           stats_queryCount = queryCount m,
           stats_errorCount = errorCount m\<rparr>, w1))"

section \<open>Vocabulary for reconnection runs\<close>

text \<open>The delay that attempt number \<open>attempt\<close> waits, as computed inside the \<open>try\<close> block.\<close>

definition backoffDelay :: "manager \<Rightarrow> nat \<Rightarrow> rat" where
  "backoffDelay m attempt =
     calculateBackoff (int attempt)
       (orDefault (initialDelay (reconnect (config m))) 1000)
       (orDefault (maxDelay (reconnect (config m))) 10000)
       (backoff (reconnect (config m)))"

text \<open>
  The events of \<open>j\<close> failed attempts numbered from \<open>a\<close>: each announces itself with
  \<open>reconnect\<close>, and its failed \<open>connect\<close> emits \<open>disconnect\<close> with the error of that call.
\<close>

definition failedAttempts :: "world \<Rightarrow> nat \<Rightarrow> nat \<Rightarrow> event list" where
  "failedAttempts w a j =
     concat (map (\<lambda>k. [Reconnect (a + k), Disconnect (connectOutcome w (connectCalls w + k))])
               [0..<j])"

section \<open>Concrete managers and worlds\<close>

text \<open>The field initialisers of the class: a manager as the constructor leaves it.\<close>

definition newManager :: "nat \<Rightarrow> config \<Rightarrow> manager" where
  "newManager client cfg =
     \<lparr>prisma = client, config = cfg, connected = False, reconnectAttempts = 0,
      totalReconnects = 0, lastSuccessfulConnection = None, queryCount = 0, errorCount = 0\<rparr>"

text \<open>
  A world at the start of its history.  The clock advances one second per reading, the heap
  is half full and \<open>global.gc\<close> is exposed; the outcomes of the primitives are parameters.
\<close>

definition newWorld :: "(nat \<Rightarrow> jsval option) \<Rightarrow> (nat \<Rightarrow> jsval option) \<Rightarrow> world" where
  "newWorld connects disconnects =
     \<lparr>connectOutcome = connects, disconnectOutcome = disconnects,
      clock = (\<lambda>k. 1000 * int k), heapUsage = (\<lambda>k. 1 / 2), gcAvailable = True,
      connectCalls = 0, disconnectCalls = 0, clockReads = 0, heapSamples = 0, gcRuns = 0,
      operationCalls = 0, handlerCalls = [], slept = [], emitted = []\<rparr>"

definition refused :: jsval where
  "refused = JObj True [(''message'', PStr ''connect ECONNREFUSED 127.0.0.1:5432'')]"

definition uniqueViolation :: jsval where
  "uniqueViolation = JObj True [(''code'', PStr ''P2002''), (''message'', PStr ''Unique constraint'')]"

text \<open>Scenarios: managers, worlds and operations used to run the code.\<close>

definition timedOut :: jsval where
  "timedOut = JObj True [(''code'', PStr ''P1008''), (''message'', PStr ''Operations timed out'')]"

definition connectedManager :: manager where
  "connectedManager =
     (newManager 1 DEFAULT_CONFIG)\<lparr>connected := True, lastSuccessfulConnection := Some 0\<rparr>"

definition reachableWorld :: world where
  "reachableWorld = newWorld (\<lambda>k. None) (\<lambda>k. None)"

definition unreachableWorld :: world where
  "unreachableWorld = newWorld (\<lambda>k. Some refused) (\<lambda>k. None)"

definition failingTwice :: "nat \<Rightarrow> jsval + int" where
  "failingTwice k = (if k = 0 then Inl refused else Inl timedOut)"

definition failingOnce :: "nat \<Rightarrow> jsval + int" where
  "failingOnce k = (if k = 0 then Inl refused else Inr 42)"

definition violating :: "nat \<Rightarrow> jsval + int" where
  "violating k = Inl uniqueViolation"

definition succeeding :: "nat \<Rightarrow> jsval + int" where
  "succeeding k = Inr 42"

definition noGcManager :: manager where
  "noGcManager =
     connectedManager\<lparr>config := DEFAULT_CONFIG\<lparr>memory := \<lparr>autoGC = False, gcThreshold = 85 / 100\<rparr>\<rparr>\<rparr>"

definition fullHeapWorld :: world where
  "fullHeapWorld = reachableWorld\<lparr>heapUsage := (\<lambda>k. 95 / 100)\<rparr>"

text \<open>A clock that stands 19 hours after the epoch, where \<open>connectedManager\<close> connected.\<close>

definition lateWorld :: world where
  "lateWorld = reachableWorld\<lparr>clock := (\<lambda>k. 19 * 60 * 60 * 1000)\<rparr>"

text \<open>Three operations in a row against a database that stays unreachable.\<close>

definition threeFailures :: "(jsval + int) \<times> manager \<times> world" where
  "threeFailures =
     (case executeWithReconnect failingTwice ''user.findMany'' connectedManager unreachableWorld of
        (r1, m1, w1) \<Rightarrow>
          (case executeWithReconnect failingTwice ''user.findMany'' m1 w1 of
             (r2, m2, w2) \<Rightarrow> executeWithReconnect failingTwice ''user.findMany'' m2 w2))"

section \<open>Evaluation rules\<close>

lemmas world_defs =
  emit_def dateNow_def sleep_def prismaConnect_def prismaDisconnect_def
  getHeapUsagePercent_def triggerGC_def callOperation_def callHandler_def

lemmas classifier_defs =
  isRetryableError_def isConnectionError_def toLowerCase_def lowerChar_def
  connectionKeywords_def CONNECTION_ERROR_CODES_def typeError_def

lemmas lifecycle_defs =
  connect_def disconnect_def reconnectAttempt_def reconnectFailure_def newError_def
  ensureConnected_def orDefault_def calculateBackoff_def


section \<open>Backoff\<close>



section \<open>Connect and disconnect\<close>

text \<open>
  Claim C9.  A call of \<open>connect\<close> invokes the connect primitive once.  If the primitive
  resolves, the call resolves, the state is Connected, \<open>lastSuccessfulConnection\<close> is the
  time read from the clock, the attempt counter is 0 and \<open>connect\<close> is emitted.  If the
  primitive rejects with \<open>e\<close>, the call rejects with the same \<open>e\<close>, the state is
  Disconnected, \<open>disconnect(e)\<close> is emitted, and the primitive is not called again.
\<close>

theorem connect_outcomes:
  "(connectOutcome w (connectCalls w) = None \<longrightarrow>
      (case connect m w of (r, m', w') \<Rightarrow>
         r = Inr () \<and> connected m' = True
         \<and> lastSuccessfulConnection m' = Some (clock w (clockReads w))
         \<and> reconnectAttempts m' = 0
         \<and> emitted w' = emitted w @ [Connect]
         \<and> connectCalls w' = Suc (connectCalls w)))
   \<and> (connectOutcome w (connectCalls w) = Some e \<longrightarrow>
      (case connect m w of (r, m', w') \<Rightarrow>
         r = Inl e \<and> connected m' = False
         \<and> emitted w' = emitted w @ [Disconnect (Some e)]
         \<and> connectCalls w' = Suc (connectCalls w)
         \<and> lastSuccessfulConnection m' = lastSuccessfulConnection m
         \<and> reconnectAttempts m' = reconnectAttempts m))"
  by (simp add: connect_def world_defs)

theorem connect_outcomes_witness:
  "connectOutcome (newWorld (\<lambda>k. None) (\<lambda>k. None)) 0 = None
   \<and> fst (connect (newManager 1 DEFAULT_CONFIG) (newWorld (\<lambda>k. None) (\<lambda>k. None))) = Inr ()
   \<and> connected (fst (snd (connect (newManager 1 DEFAULT_CONFIG)
                              (newWorld (\<lambda>k. None) (\<lambda>k. None))))) = True
   \<and> connectOutcome (newWorld (\<lambda>k. Some refused) (\<lambda>k. None)) 0 = Some refused
   \<and> fst (connect (newManager 1 DEFAULT_CONFIG) (newWorld (\<lambda>k. Some refused) (\<lambda>k. None)))
       = Inl refused
   \<and> connected (fst (snd (connect (newManager 1 DEFAULT_CONFIG)
                              (newWorld (\<lambda>k. Some refused) (\<lambda>k. None))))) = False"
proof -
  have ok: "connectOutcome (newWorld (\<lambda>k. None) (\<lambda>k. None))
              (connectCalls (newWorld (\<lambda>k. None) (\<lambda>k. None))) = None"
    by (simp add: newWorld_def)
  have ko: "connectOutcome (newWorld (\<lambda>k. Some refused) (\<lambda>k. None))
              (connectCalls (newWorld (\<lambda>k. Some refused) (\<lambda>k. None))) = Some refused"
    by (simp add: newWorld_def)
  show ?thesis
    using ok ko
      connect_outcomes [of "newWorld (\<lambda>k. None) (\<lambda>k. None)" "newManager 1 DEFAULT_CONFIG" refused]
      connect_outcomes [of "newWorld (\<lambda>k. Some refused) (\<lambda>k. None)" "newManager 1 DEFAULT_CONFIG" refused]
    by (simp add: case_prod_beta newWorld_def)
qed

text \<open>
  Claim C8.  A call of \<open>disconnect\<close> resolves and leaves the state Disconnected whether
  the disconnect primitive resolves or rejects, and it emits nothing.  Two calls in a row
  both resolve and both leave the state Disconnected.
\<close>

theorem disconnect_never_throws:
  "(case disconnect m w of (r1, m1, w1) \<Rightarrow>
      r1 = Inr () \<and> connected m1 = False
      \<and> disconnectCalls w1 = Suc (disconnectCalls w) \<and> emitted w1 = emitted w
      \<and> (case disconnect m1 w1 of (r2, m2, w2) \<Rightarrow>
            r2 = Inr () \<and> connected m2 = False
            \<and> disconnectCalls w2 = Suc (Suc (disconnectCalls w))))"
  by (simp add: disconnect_def world_defs split: option.split)

theorem disconnect_never_throws_witness:
  "disconnectOutcome (newWorld (\<lambda>k. None) (\<lambda>k. Some refused)) 0 = Some refused
   \<and> fst (disconnect connectedManager (newWorld (\<lambda>k. None) (\<lambda>k. Some refused))) = Inr ()
   \<and> connected (fst (snd (disconnect connectedManager
                                 (newWorld (\<lambda>k. None) (\<lambda>k. Some refused))))) = False"
proof -
  have "disconnectOutcome (newWorld (\<lambda>k. None) (\<lambda>k. Some refused)) 0 = Some refused"
    by (simp add: newWorld_def)
  then show ?thesis
    using disconnect_never_throws
            [where m = connectedManager and w = "newWorld (\<lambda>k. None) (\<lambda>k. Some refused)"]
    by (simp add: case_prod_beta)
qed

section \<open>Statistics\<close>

text \<open>
  Claim C10.  For a manager that has never connected (\<open>lastSuccessfulConnection\<close> is
  null), \<open>getConnectionStats\<close> reports uptime 0 and a null \<open>lastSuccessfulConnection\<close>.  For
  a manager whose last successful connection was at time \<open>t\<close>, the uptime is the clock
  reading minus \<open>t\<close>.
\<close>

theorem getConnectionStats_uptime:
  "(lastSuccessfulConnection m = None \<longrightarrow>
      stats_uptime (fst (getConnectionStats m w)) = 0
      \<and> stats_lastSuccessfulConnection (fst (getConnectionStats m w)) = None)
   \<and> (lastSuccessfulConnection m = Some t \<longrightarrow>
      stats_uptime (fst (getConnectionStats m w)) = clock w (clockReads w) - t
      \<and> stats_lastSuccessfulConnection (fst (getConnectionStats m w)) = Some t)"
  by (simp add: getConnectionStats_def world_defs)

theorem getConnectionStats_uptime_witness:
  "lastSuccessfulConnection (newManager 1 DEFAULT_CONFIG) = None
   \<and> stats_uptime (fst (getConnectionStats (newManager 1 DEFAULT_CONFIG)
                           (newWorld (\<lambda>k. None) (\<lambda>k. None)))) = 0
   \<and> lastSuccessfulConnection
        ((newManager 1 DEFAULT_CONFIG)\<lparr>lastSuccessfulConnection := Some (- 500)\<rparr>) = Some (- 500)
   \<and> stats_uptime (fst (getConnectionStats
                           ((newManager 1 DEFAULT_CONFIG)\<lparr>lastSuccessfulConnection := Some (- 500)\<rparr>)
                           (newWorld (\<lambda>k. None) (\<lambda>k. None)))) = 500"
proof -
  have never: "lastSuccessfulConnection (newManager 1 DEFAULT_CONFIG) = None"
    by (simp add: newManager_def)
  have once: "lastSuccessfulConnection
                ((newManager 1 DEFAULT_CONFIG)\<lparr>lastSuccessfulConnection := Some (- 500)\<rparr>)
              = Some (- 500)"
    by simp
  show ?thesis
    using never once
      getConnectionStats_uptime [of "newManager 1 DEFAULT_CONFIG" "newWorld (\<lambda>k. None) (\<lambda>k. None)" 0]
      getConnectionStats_uptime
        [of "(newManager 1 DEFAULT_CONFIG)\<lparr>lastSuccessfulConnection := Some (- 500)\<rparr>"
            "newWorld (\<lambda>k. None) (\<lambda>k. None)" "- 500"]
    by (simp add: newWorld_def)
qed

section \<open>The error classifier\<close>

lemma includesStr_sublist: "includesStr s k \<longleftrightarrow> sublist k s"
  by (induction s) (auto simp: sublist_Cons_right)

lemma includesStr_lowered:
  "includesStr (toLowerCase s) k \<longleftrightarrow> (\<exists>piece. sublist piece s \<and> toLowerCase piece = k)"
  unfolding includesStr_sublist toLowerCase_def
  using sublist_map_rightE [of k lowerChar s] map_mono_sublist [of _ s lowerChar]
  by blast

lemma containsIgnoringCase_iff:
  "containsIgnoringCase s k
   \<longleftrightarrow> (\<exists>piece. sublist piece s \<and> toLowerCase piece = toLowerCase k)"
  by (auto simp: containsIgnoringCase_def list_ex_iff)

lemma keywords_lower: "k \<in> set connectionKeywords \<Longrightarrow> toLowerCase k = k"
  by (auto simp: connectionKeywords_def toLowerCase_def lowerChar_def)

lemma keyword_match:
  "list_ex (\<lambda>keyword. includesStr (toLowerCase s) keyword) connectionKeywords
   = list_ex (containsIgnoringCase s) connectionKeywords"
  unfolding list_ex_iff
  by (auto simp: includesStr_lowered containsIgnoringCase_iff keywords_lower)

lemma no_keyword_in_empty:
  "list_ex (\<lambda>keyword. includesStr [] keyword) connectionKeywords = False"
  by (simp add: connectionKeywords_def)

lemma code_match:
  "(truthy c \<and> codesInclude c)
   = (c \<in> set (map PStr [''P1001'', ''P1008'', ''P1017'', ''P2024'']))"
  by (cases c) (auto simp: CONNECTION_ERROR_CODES_def)

lemma truthy_code: "codesInclude c \<Longrightarrow> truthy c"
  by (cases c) (auto simp: CONNECTION_ERROR_CODES_def)

lemma spec_keywords:
  "[''connection'', ''connect'', ''disconnect'', ''econnrefused'',
    ''etimedout'', ''enotfound'', ''socket'', ''network''] = connectionKeywords"
  by (simp add: connectionKeywords_def)

text \<open>The two decision procedures agree once the code and the message have been read.\<close>

lemma classify_core:
  assumes "textOrAbsent mm \<or> codesInclude c"
  shows "(if truthy c \<and> codesInclude c then Inr True
          else case mm of
                 PUndefined \<Rightarrow> Inr (list_ex (\<lambda>keyword. includesStr [] keyword) connectionKeywords)
               | PNull \<Rightarrow> Inr (list_ex (\<lambda>keyword. includesStr [] keyword) connectionKeywords)
               | PStr s \<Rightarrow>
                   Inr (list_ex (\<lambda>keyword. includesStr (toLowerCase s) keyword) connectionKeywords)
               | PBool b \<Rightarrow> Inl typeError
               | PNum n \<Rightarrow> Inl typeError)
         = (Inr (c \<in> set (map PStr [''P1001'', ''P1008'', ''P1017'', ''P2024''])
                 \<or> (case mm of
                       PStr msg \<Rightarrow>
                         list_ex (containsIgnoringCase msg)
                           [''connection'', ''connect'', ''disconnect'', ''econnrefused'',
                            ''etimedout'', ''enotfound'', ''socket'', ''network'']
                     | _ \<Rightarrow> False)) :: jsval + bool)"
proof (cases "codesInclude c")
  case True
  then show ?thesis using code_match [of c] truthy_code [of c] by simp
next
  case False
  with assms have t: "textOrAbsent mm" by simp
  from False have "c \<notin> set (map PStr [''P1001'', ''P1008'', ''P1017'', ''P2024''])"
    using code_match [of c] by blast
  with False t show ?thesis
    by (cases mm) (simp_all add: no_keyword_in_empty keyword_match spec_keywords)
qed

lemma isConnectionError_object:
  "isConnectionError (JObj isErr props) =
     (if truthy (getProp (JObj isErr props) ''code'')
         \<and> codesInclude (getProp (JObj isErr props) ''code'') then Inr True
      else case getProp (JObj isErr props) ''message'' of
             PUndefined \<Rightarrow> Inr (list_ex (\<lambda>keyword. includesStr [] keyword) connectionKeywords)
           | PNull \<Rightarrow> Inr (list_ex (\<lambda>keyword. includesStr [] keyword) connectionKeywords)
           | PStr s \<Rightarrow>
               Inr (list_ex (\<lambda>keyword. includesStr (toLowerCase s) keyword) connectionKeywords)
           | PBool b \<Rightarrow> Inl typeError
           | PNum n \<Rightarrow> Inl typeError)"
  by (simp add: isConnectionError_def del: getProp.simps)

lemma specRecoverable_object:
  "specRecoverable (JObj isErr props) =
     (getProp (JObj isErr props) ''code''
        \<in> set (map PStr [''P1001'', ''P1008'', ''P1017'', ''P2024''])
      \<or> (case getProp (JObj isErr props) ''message'' of
            PStr msg \<Rightarrow>
              list_ex (containsIgnoringCase msg)
                [''connection'', ''connect'', ''disconnect'', ''econnrefused'',
                 ''etimedout'', ''enotfound'', ''socket'', ''network'']
          | _ \<Rightarrow> False))"
  by (simp add: specRecoverable_def del: getProp.simps)

lemma isConnectionError_primitive: "isConnectionError (JPrim p) = Inr False"
  by (cases p) (simp_all add: isConnectionError_def)

lemma isConnectionError_textual:
  assumes "textOrAbsent (getProp v ''message'') \<or> codesInclude (getProp v ''code'')"
  shows "isConnectionError v = Inr (specRecoverable v)"
proof (cases v)
  case (JPrim p)
  then show ?thesis by (simp add: isConnectionError_primitive specRecoverable_def)
next
  case (JObj isErr props)
  show ?thesis
    unfolding JObj isConnectionError_object specRecoverable_object
    by (rule classify_core) (use assms JObj in simp)
qed

lemma isConnectionError_throws:
  assumes "\<not> textOrAbsent (getProp v ''message'')" and "\<not> codesInclude (getProp v ''code'')"
  shows "isConnectionError v = Inl typeError \<and> \<not> specRecoverable v"
proof (cases v)
  case (JPrim p)
  with assms show ?thesis by simp
next
  case (JObj isErr props)
  from assms(2) have "getProp v ''code'' \<notin> set (map PStr [''P1001'', ''P1008'', ''P1017'', ''P2024''])"
    using code_match [of "getProp v ''code''"] by blast
  with assms show ?thesis
    unfolding JObj isConnectionError_object specRecoverable_object
    by (cases "getProp (JObj isErr props) ''message''") simp_all
qed

lemma upper_econnrefused:
  "sublist ''ECONNREFUSED'' s \<Longrightarrow> containsIgnoringCase s ''econnrefused''"
  unfolding containsIgnoringCase_iff
  by (rule exI [of _ "''ECONNREFUSED''"]) (simp add: toLowerCase_def lowerChar_def)

text \<open>
  Claim C3.  For every input value, the classifier (\<open>isConnectionError\<close>, and
  \<open>isRetryableError\<close>, which is the same function) returns true exactly when the input is an
  object whose code is one of P1001, P1008, P1017, P2024 or whose message contains,
  compared case-insensitively, one of the eight keywords.  An object with code P1001 and
  any object whose message contains \<open>ECONNREFUSED\<close> are recoverable; an object with code
  P2002, the message \<open>Invalid input\<close>, \<open>null\<close> and every other non-object input are classified
  not recoverable.  When the message is a string or is missing, the classifier returns a
  boolean, which is the policy's verdict.
\<close>

theorem isConnectionError_policy:
  "(isConnectionError v = Inr True \<longleftrightarrow> specRecoverable v)
   \<and> (isRetryableError v = Inr True \<longleftrightarrow> specRecoverable v)
   \<and> (textOrAbsent (getProp v ''message'') \<longrightarrow> isConnectionError v = Inr (specRecoverable v))
   \<and> (getProp (JObj isErr props) ''code'' = PStr ''P1001''
        \<longrightarrow> isConnectionError (JObj isErr props) = Inr True)
   \<and> (getProp (JObj isErr props) ''message'' = PStr s \<and> sublist ''ECONNREFUSED'' s
        \<longrightarrow> isConnectionError (JObj isErr props) = Inr True)
   \<and> isConnectionError (JObj False [(''code'', PStr ''P2002'')]) = Inr False
   \<and> isConnectionError (JObj False [(''message'', PStr ''Invalid input'')]) = Inr False
   \<and> isConnectionError (JPrim p) = Inr False"
proof -
  have general: "isConnectionError v = Inr True \<longleftrightarrow> specRecoverable v"
  proof (cases "textOrAbsent (getProp v ''message'') \<or> codesInclude (getProp v ''code'')")
    case True
    then show ?thesis by (simp add: isConnectionError_textual)
  next
    case False
    then show ?thesis using isConnectionError_throws [of v] by simp
  qed
  have coded: "isConnectionError (JObj isErr props) = Inr True"
    if "getProp (JObj isErr props) ''code'' = PStr ''P1001''"
    using that unfolding isConnectionError_object by (simp add: CONNECTION_ERROR_CODES_def)
  have refusedMessage: "isConnectionError (JObj isErr props) = Inr True"
    if "getProp (JObj isErr props) ''message'' = PStr s" and "sublist ''ECONNREFUSED'' s"
  proof -
    have "specRecoverable (JObj isErr props)"
      unfolding specRecoverable_object using that by (simp add: upper_econnrefused)
    moreover have "isConnectionError (JObj isErr props) = Inr (specRecoverable (JObj isErr props))"
      by (rule isConnectionError_textual) (simp add: that del: getProp.simps)
    ultimately show ?thesis by simp
  qed
  have p2002: "isConnectionError (JObj False [(''code'', PStr ''P2002'')]) = Inr False"
    by (simp add: classifier_defs)
  have invalid: "isConnectionError (JObj False [(''message'', PStr ''Invalid input'')]) = Inr False"
    by (simp add: classifier_defs)
  show ?thesis
    using general coded refusedMessage p2002 invalid
    by (simp add: isRetryableError_def isConnectionError_textual isConnectionError_primitive
             del: getProp.simps)
qed

theorem isConnectionError_policy_witness:
  "textOrAbsent (getProp refused ''message'')
   \<and> specRecoverable refused
   \<and> getProp (JObj True [(''code'', PStr ''P1001'')]) ''code'' = PStr ''P1001''
   \<and> isConnectionError (JObj True [(''code'', PStr ''P1001'')]) = Inr True
   \<and> getProp (JObj False [(''message'', PStr ''xx ECONNREFUSED'')]) ''message''
       = PStr ''xx ECONNREFUSED''
   \<and> sublist ''ECONNREFUSED'' ''xx ECONNREFUSED''
   \<and> isConnectionError (JObj False [(''message'', PStr ''xx ECONNREFUSED'')]) = Inr True"
proof -
  have classified: "isConnectionError refused = Inr True"
    by (simp add: classifier_defs refused_def)
  have textual: "textOrAbsent (getProp refused ''message'')"
    by (simp add: refused_def)
  have piece: "sublist ''ECONNREFUSED'' ''xx ECONNREFUSED''"
    using sublist_appendI [of "''ECONNREFUSED''" "''xx ''" "[]"] by simp
  have reads: "getProp (JObj True [(''code'', PStr ''P1001'')]) ''code'' = PStr ''P1001''"
    "getProp (JObj False [(''message'', PStr ''xx ECONNREFUSED'')]) ''message''
       = PStr ''xx ECONNREFUSED''"
    by simp_all
  show ?thesis
    using classified textual piece reads
      isConnectionError_policy [of refused True "[(''code'', PStr ''P1001'')]" "[]"]
      isConnectionError_policy
        [of refused False "[(''message'', PStr ''xx ECONNREFUSED'')]" "''xx ECONNREFUSED''"]
    by (simp del: getProp.simps)
qed

section \<open>Reconnection\<close>

lemma disconnect_eq:
  "disconnect m w = (Inr (), m\<lparr>connected := False\<rparr>, w\<lparr>disconnectCalls := Suc (disconnectCalls w)\<rparr>)"
  by (simp add: disconnect_def prismaDisconnect_def split: option.split)

lemma reconnectAttempt_fails:
  assumes "connectOutcome w (connectCalls w) = Some e"
  shows "reconnectAttempt a m w =
           (Inl e, m\<lparr>connected := False\<rparr>,
            w\<lparr>disconnectCalls := Suc (disconnectCalls w), slept := slept w @ [backoffDelay m a],
              connectCalls := Suc (connectCalls w),
              emitted := emitted w @ [Disconnect (Some e)]\<rparr>)"
  using assms
  by (simp add: reconnectAttempt_def disconnect_eq connect_def world_defs backoffDelay_def)

lemma reconnectAttempt_succeeds:
  assumes "connectOutcome w (connectCalls w) = None"
  shows "reconnectAttempt a m w =
           (Inr (), m\<lparr>connected := True, lastSuccessfulConnection := Some (clock w (clockReads w)),
                      reconnectAttempts := 0, totalReconnects := Suc (totalReconnects m)\<rparr>,
            w\<lparr>disconnectCalls := Suc (disconnectCalls w), slept := slept w @ [backoffDelay m a],
              connectCalls := Suc (connectCalls w), clockReads := Suc (clockReads w),
              emitted := emitted w @ [Connect, ReconnectSuccess]\<rparr>)"
  using assms
  by (simp add: reconnectAttempt_def disconnect_eq connect_def world_defs backoffDelay_def)

lemma failedAttempts_Suc:
  assumes "connectOutcome w1 = connectOutcome w" and "connectCalls w1 = Suc (connectCalls w)"
  shows "failedAttempts w a (Suc d)
         = [Reconnect a, Disconnect (connectOutcome w (connectCalls w))]
           @ failedAttempts w1 (Suc a) d"
proof -
  have "[0..<Suc d] = 0 # map Suc [0..<d]"
    by (simp only: map_Suc_upt upt_conv_Cons [of 0 "Suc d"] zero_less_Suc)
  then show ?thesis
    unfolding failedAttempts_def using assms by (simp add: comp_def del: upt_Suc)
qed

lemma reconnectLoop_exhausted:
  assumes "\<forall>k\<le>d. connectOutcome w (connectCalls w + k) \<noteq> None"
    and "connectOutcome w (connectCalls w + d) = Some e"
  shows "\<exists>m' w'. reconnectLoop a (a + d) m w = (Inl (reconnectFailure (a + d) e), m', w')
           \<and> connected m' = False \<and> reconnectAttempts m' = a + d \<and> config m' = config m
           \<and> prisma m' = prisma m \<and> totalReconnects m' = totalReconnects m
           \<and> lastSuccessfulConnection m' = lastSuccessfulConnection m
           \<and> queryCount m' = queryCount m \<and> errorCount m' = errorCount m
           \<and> connectOutcome w' = connectOutcome w
           \<and> connectCalls w' = connectCalls w + Suc d
           \<and> operationCalls w' = operationCalls w
           \<and> emitted w' = emitted w @ failedAttempts w a (Suc d) @ [ReconnectFailed e]"
  using assms
proof (induction d arbitrary: a m w)
  case 0
  then have e0: "connectOutcome (emit (Reconnect a) w) (connectCalls (emit (Reconnect a) w)) = Some e"
    by (simp add: emit_def)
  show ?case
    using 0 reconnectAttempt_fails [OF e0, of a "m\<lparr>reconnectAttempts := a\<rparr>"]
    by (subst reconnectLoop.simps) (simp add: emit_def failedAttempts_def)
next
  case (Suc d)
  let ?m0 = "m\<lparr>reconnectAttempts := a\<rparr>"
  let ?w0 = "emit (Reconnect a) w"
  from Suc.prems(1) obtain e0 where e0: "connectOutcome w (connectCalls w) = Some e0"
    by (metis add_0_right le0 not_None_eq)
  then have e0': "connectOutcome ?w0 (connectCalls ?w0) = Some e0" by (simp add: emit_def)
  note step = reconnectAttempt_fails [OF e0', of a ?m0]
  let ?m1 = "?m0\<lparr>connected := False\<rparr>"
  let ?w1 = "?w0\<lparr>disconnectCalls := Suc (disconnectCalls ?w0),
                 slept := slept ?w0 @ [backoffDelay ?m0 a],
                 connectCalls := Suc (connectCalls ?w0),
                 emitted := emitted ?w0 @ [Disconnect (Some e0)]\<rparr>"
  have p1: "\<forall>k\<le>d. connectOutcome ?w1 (connectCalls ?w1 + k) \<noteq> None"
  proof (intro allI impI)
    fix k assume "k \<le> d"
    then have "connectOutcome w (connectCalls w + Suc k) \<noteq> None"
      using Suc.prems(1) by (meson Suc_le_mono)
    then show "connectOutcome ?w1 (connectCalls ?w1 + k) \<noteq> None" by (simp add: emit_def)
  qed
  have p2: "connectOutcome ?w1 (connectCalls ?w1 + d) = Some e"
    using Suc.prems(2) by (simp add: emit_def)
  from Suc.IH [OF p1 p2, of "Suc a" ?m1]
  obtain m' w' where r: "reconnectLoop (Suc a) (Suc a + d) ?m1 ?w1 = (Inl (reconnectFailure (Suc a + d) e), m', w')"
    and rest: "connected m' = False" "reconnectAttempts m' = Suc a + d" "config m' = config ?m1"
      "prisma m' = prisma ?m1" "totalReconnects m' = totalReconnects ?m1"
      "lastSuccessfulConnection m' = lastSuccessfulConnection ?m1"
      "queryCount m' = queryCount ?m1" "errorCount m' = errorCount ?m1"
      "connectOutcome w' = connectOutcome ?w1"
      "connectCalls w' = connectCalls ?w1 + Suc d"
      "operationCalls w' = operationCalls ?w1"
      "emitted w' = emitted ?w1 @ failedAttempts ?w1 (Suc a) (Suc d) @ [ReconnectFailed e]"
    by blast
  have fa: "failedAttempts w a (Suc (Suc d))
            = [Reconnect a, Disconnect (Some e0)] @ failedAttempts ?w1 (Suc a) (Suc d)"
    using failedAttempts_Suc [of ?w1 w a "Suc d"] e0 by (simp add: emit_def)
  have unfold: "reconnectLoop a (a + Suc d) m w = reconnectLoop (Suc a) (Suc a + d) ?m1 ?w1"
    using step by (subst reconnectLoop.simps) simp
  show ?case
    unfolding unfold using r rest fa by (simp add: emit_def)
qed

lemma reconnectLoop_first_success:
  assumes "connectOutcome w (connectCalls w) = None" and "1 \<le> n"
  shows "reconnectLoop 1 n m w =
           (Inr (), m\<lparr>connected := True, lastSuccessfulConnection := Some (clock w (clockReads w)),
                      reconnectAttempts := 0, totalReconnects := Suc (totalReconnects m)\<rparr>,
            w\<lparr>disconnectCalls := Suc (disconnectCalls w), slept := slept w @ [backoffDelay m 1],
              connectCalls := Suc (connectCalls w), clockReads := Suc (clockReads w),
              emitted := emitted w @ [Reconnect 1, Connect, ReconnectSuccess]\<rparr>)"
proof -
  have "connectOutcome (emit (Reconnect 1) w) (connectCalls (emit (Reconnect 1) w)) = None"
    using assms(1) by (simp add: emit_def)
  from reconnectAttempt_succeeds [OF this, of 1 "m\<lparr>reconnectAttempts := 1\<rparr>"] assms(2)
  show ?thesis
    by (subst reconnectLoop.simps) (simp add: emit_def backoffDelay_def)
qed

lemma getErrorMessage_wrapped:
  "getErrorMessage (reconnectFailure n e)
   = ''Failed to reconnect after '' @ showNat n @ '' attempts: '' @ getErrorMessage e"
  by (simp add: reconnectFailure_def newError_def)

lemma wrapped_distinct: "reconnectFailure n e \<noteq> e"
proof
  assume "reconnectFailure n e = e"
  then have "getErrorMessage (reconnectFailure n e) = getErrorMessage e"
    by (rule arg_cong)
  then have "length (''Failed to reconnect after '' @ showNat n @ '' attempts: '' @ getErrorMessage e)
             = length (getErrorMessage e)"
    unfolding getErrorMessage_wrapped by (rule arg_cong)
  then show False by simp
qed

lemma reconnectAttempt_frame:
  assumes "reconnectAttempt a m w = (r, m', w')"
  shows "prisma m' = prisma m \<and> config m' = config m \<and> queryCount m' = queryCount m
         \<and> errorCount m' = errorCount m
         \<and> connectOutcome w' = connectOutcome w \<and> disconnectOutcome w' = disconnectOutcome w
         \<and> clock w' = clock w \<and> heapUsage w' = heapUsage w \<and> gcAvailable w' = gcAvailable w
         \<and> heapSamples w' = heapSamples w \<and> gcRuns w' = gcRuns w
         \<and> operationCalls w' = operationCalls w \<and> handlerCalls w' = handlerCalls w
         \<and> connectCalls w' = Suc (connectCalls w)
         \<and> (case r of Inl e \<Rightarrow> connected m' = False | Inr u \<Rightarrow> connected m' = True)"
proof (cases "connectOutcome w (connectCalls w)")
  case None
  from reconnectAttempt_succeeds [OF None, of a m] assms show ?thesis by auto
next
  case (Some e)
  from reconnectAttempt_fails [OF Some, of a m] assms show ?thesis by auto
qed

lemma reconnectLoop_frame:
  "reconnectLoop a n m w = (r, m', w') \<Longrightarrow>
     prisma m' = prisma m \<and> config m' = config m \<and> queryCount m' = queryCount m
     \<and> errorCount m' = errorCount m
     \<and> connectOutcome w' = connectOutcome w \<and> disconnectOutcome w' = disconnectOutcome w
     \<and> clock w' = clock w \<and> heapUsage w' = heapUsage w \<and> gcAvailable w' = gcAvailable w
     \<and> heapSamples w' = heapSamples w \<and> gcRuns w' = gcRuns w
     \<and> operationCalls w' = operationCalls w \<and> handlerCalls w' = handlerCalls w
     \<and> connectCalls w \<le> connectCalls w'
     \<and> (case r of Inl e \<Rightarrow> connected m' = False | Inr u \<Rightarrow> a \<le> n \<longrightarrow> connected m' = True)"
proof (induction a n m w arbitrary: r m' w' rule: reconnectLoop.induct)
  case (1 attempt maxAtt m w)
  show ?case
  proof (cases "attempt \<le> maxAtt")
    case False
    with "1.prems" show ?thesis by (subst (asm) reconnectLoop.simps) auto
  next
    case True
    obtain r1 m1 w1 where step: "reconnectAttempt attempt (m\<lparr>reconnectAttempts := attempt\<rparr>)
                (emit (Reconnect attempt) w) = (r1, m1, w1)"
      by (metis prod_cases3)
    note f1 = reconnectAttempt_frame [OF step]
    show ?thesis
    proof (cases r1)
      case (Inr u)
      with "1.prems" True step f1 show ?thesis
        by (subst (asm) reconnectLoop.simps) (auto simp: emit_def)
    next
      case (Inl e)
      show ?thesis
      proof (cases "attempt = maxAtt")
        case True
        with "1.prems" Inl step f1 show ?thesis
          by (subst (asm) reconnectLoop.simps) (auto simp: emit_def)
      next
        case False
        with "1.prems" Inl step \<open>attempt \<le> maxAtt\<close>
        have rec: "reconnectLoop (Suc attempt) maxAtt m1 w1 = (r, m', w')"
          by (subst (asm) reconnectLoop.simps) simp
        from "1.IH" [OF \<open>attempt \<le> maxAtt\<close> step [symmetric] Inl refl False rec]
        have "prisma m' = prisma m1 \<and> config m' = config m1 \<and> queryCount m' = queryCount m1
     \<and> errorCount m' = errorCount m1
     \<and> connectOutcome w' = connectOutcome w1 \<and> disconnectOutcome w' = disconnectOutcome w1
     \<and> clock w' = clock w1 \<and> heapUsage w' = heapUsage w1 \<and> gcAvailable w' = gcAvailable w1
     \<and> heapSamples w' = heapSamples w1 \<and> gcRuns w' = gcRuns w1
     \<and> operationCalls w' = operationCalls w1 \<and> handlerCalls w' = handlerCalls w1
     \<and> connectCalls w1 \<le> connectCalls w'
     \<and> (case r of Inl e \<Rightarrow> connected m' = False | Inr u \<Rightarrow> Suc attempt \<le> maxAtt \<longrightarrow> connected m' = True)"
          by simp
        with f1 False \<open>attempt \<le> maxAtt\<close> show ?thesis
          by (auto simp: emit_def split: sum.splits)
      qed
    qed
  qed
qed



text \<open>What a reconnection run leaves untouched, whatever the connect outcomes are.\<close>

lemma ensureConnected_frame:
  assumes "ensureConnected m w = (r, m', w')"
  shows "prisma m' = prisma m \<and> config m' = config m \<and> queryCount m' = queryCount m
     \<and> errorCount m' = errorCount m
     \<and> connectOutcome w' = connectOutcome w \<and> disconnectOutcome w' = disconnectOutcome w
     \<and> clock w' = clock w \<and> heapUsage w' = heapUsage w \<and> gcAvailable w' = gcAvailable w
     \<and> heapSamples w' = heapSamples w \<and> gcRuns w' = gcRuns w
     \<and> operationCalls w' = operationCalls w \<and> handlerCalls w' = handlerCalls w
     \<and> connectCalls w \<le> connectCalls w'
     \<and> (case r of Inl e \<Rightarrow> connected m' = False | Inr u \<Rightarrow> connected m' = True)"
proof (cases "connected m")
  case True
  with assms show ?thesis by (auto simp: ensureConnected_def)
next
  case False
  let ?n = "orDefault (maxAttempts (reconnect (config m))) 3"
  have "1 \<le> ?n" by (simp add: orDefault_def)
  moreover from False assms have "reconnectLoop 1 ?n m w = (r, m', w')"
    by (simp add: ensureConnected_def)
  ultimately show ?thesis
    using reconnectLoop_frame [of 1 ?n m w r m' w'] by (auto split: sum.splits)
qed

text \<open>
  Claim C4.  When \<open>ensureConnected\<close> starts from the Disconnected state and every one of
  the \<open>maxAttempts\<close> connect attempts fails, it throws a new error whose message is
  \<open>Failed to reconnect after N attempts: ...\<close>, with \<open>N\<close> the attempt count, followed by the
  message of the last connect error \<open>e\<close>; the thrown error is not \<open>e\<close> itself.  The events
  of the run are those of the \<open>N\<close> failed attempts followed by one \<open>reconnect:failed(e)\<close>,
  and \<open>$connect\<close> has been called \<open>N\<close> times.  The manager is left Disconnected with its
  configuration and client unchanged, and it stays usable: if the next \<open>$connect\<close> would
  succeed, the next \<open>ensureConnected\<close> returns normally in the Connected state.
\<close>

theorem ensureConnected_exhaustion:
  assumes "connected m = False"
    and "n = orDefault (maxAttempts (reconnect (config m))) 3"
    and "\<forall>k<n. connectOutcome w (connectCalls w + k) \<noteq> None"
    and "connectOutcome w (connectCalls w + (n - 1)) = Some e"
  shows "case ensureConnected m w of (r, m', w') \<Rightarrow>
           r = Inl (reconnectFailure n e)
           \<and> getErrorMessage (reconnectFailure n e)
               = ''Failed to reconnect after '' @ showNat n @ '' attempts: '' @ getErrorMessage e
           \<and> reconnectFailure n e \<noteq> e
           \<and> emitted w' = emitted w @ failedAttempts w 1 n @ [ReconnectFailed e]
           \<and> connectCalls w' = connectCalls w + n
           \<and> connected m' = False \<and> config m' = config m \<and> prisma m' = prisma m
           \<and> (connectOutcome w (connectCalls w + n) = None \<longrightarrow>
                (case ensureConnected m' w' of (r2, m2, w2) \<Rightarrow>
                   r2 = Inr () \<and> connected m2 = True
                   \<and> totalReconnects m2 = Suc (totalReconnects m)))"
proof -
  from assms(2) have pos: "1 \<le> n"
    by (simp add: orDefault_def split: if_splits)
  then have n: "1 + (n - 1) = n" "Suc (n - 1) = n" by simp_all
  from assms(3) have all: "\<forall>k\<le>n - 1. connectOutcome w (connectCalls w + k) \<noteq> None"
    using pos by auto
  from reconnectLoop_exhausted [OF all assms(4), of 1 m]
  obtain m' w' where run: "reconnectLoop 1 n m w = (Inl (reconnectFailure n e), m', w')"
    and after: "connected m' = False" "config m' = config m" "prisma m' = prisma m"
      "totalReconnects m' = totalReconnects m"
      "connectOutcome w' = connectOutcome w" "connectCalls w' = connectCalls w + n"
      "emitted w' = emitted w @ failedAttempts w 1 n @ [ReconnectFailed e]"
    unfolding n using pos by auto
  have first: "ensureConnected m w = (Inl (reconnectFailure n e), m', w')"
    using assms(1,2) run by (simp add: ensureConnected_def)
  have again: "ensureConnected m' w' = reconnectLoop 1 n m' w'"
    using after assms(2) by (simp add: ensureConnected_def)
  have next_ok: "case ensureConnected m' w' of (r2, m2, w2) \<Rightarrow>
                   r2 = Inr () \<and> connected m2 = True
                   \<and> totalReconnects m2 = Suc (totalReconnects m)"
    if "connectOutcome w (connectCalls w + n) = None"
  proof -
    from that after have "connectOutcome w' (connectCalls w') = None" by simp
    from reconnectLoop_first_success [OF this pos, of m'] after show ?thesis
      unfolding again by simp
  qed
  show ?thesis
    unfolding first using after next_ok
    by (simp add: getErrorMessage_wrapped wrapped_distinct)
qed

theorem ensureConnected_exhaustion_witness:
  "connected (newManager 1 DEFAULT_CONFIG) = False
   \<and> (case ensureConnected (newManager 1 DEFAULT_CONFIG)
              (newWorld (\<lambda>k. if k < 3 then Some refused else None) (\<lambda>k. None)) of
         (r, m', w') \<Rightarrow>
           r = Inl (newError (''Failed to reconnect after 3 attempts: ''
                              @ ''connect ECONNREFUSED 127.0.0.1:5432''))
           \<and> connectCalls w' = 3
           \<and> fst (ensureConnected m' w') = Inr ())"
proof -
  let ?m = "newManager 1 DEFAULT_CONFIG"
  let ?w = "newWorld (\<lambda>k. if k < 3 then Some refused else None) (\<lambda>k. None)"
  have h1: "connected ?m = False"
    by (simp add: newManager_def)
  have h2: "(3::nat) = orDefault (maxAttempts (reconnect (config ?m))) 3"
    by (simp add: newManager_def DEFAULT_CONFIG_def orDefault_def)
  have h3: "\<forall>k<3. connectOutcome ?w (connectCalls ?w + k) \<noteq> None"
    by (simp add: newWorld_def)
  have h4: "connectOutcome ?w (connectCalls ?w + (3 - 1)) = Some refused"
    by (simp add: newWorld_def)
  have h5: "connectOutcome ?w (connectCalls ?w + 3) = None"
    by (simp add: newWorld_def)
  have msg: "reconnectFailure 3 refused
             = newError (''Failed to reconnect after 3 attempts: ''
                         @ ''connect ECONNREFUSED 127.0.0.1:5432'')"
    by (simp add: reconnectFailure_def refused_def showNat.simps digitChar_def)
  have start: "connectCalls ?w = 0"
    by (simp add: newWorld_def)
  from ensureConnected_exhaustion [OF h1 h2 h3 h4] h5 h1 show ?thesis
    unfolding msg start by (simp add: case_prod_beta)
qed

section \<open>The interceptor\<close>






lemma failedAttempts_cong:
  "connectOutcome w2 = connectOutcome w1 \<Longrightarrow> connectCalls w2 = connectCalls w1
   \<Longrightarrow> failedAttempts w2 a j = failedAttempts w1 a j"
  by (simp add: failedAttempts_def)


lemmas scenario_defs =
  newManager_def newWorld_def DEFAULT_CONFIG_def refused_def timedOut_def uniqueViolation_def
  connectedManager_def reachableWorld_def unreachableWorld_def
  failingTwice_def failingOnce_def violating_def succeeding_def
  noGcManager_def fullHeapWorld_def lateWorld_def



section \<open>Successful operations and the memory check\<close>

lemma memoryCheck_frame:
  "operationCalls (memoryCheck m w) = operationCalls w
   \<and> connectCalls (memoryCheck m w) = connectCalls w
   \<and> connectOutcome (memoryCheck m w) = connectOutcome w"
  by (simp add: memoryCheck_def getHeapUsagePercent_def triggerGC_def emit_def Let_def)

lemma tryBlock_frame:
  assumes "tryBlock operation m w = (r, m', w')"
  shows "prisma m' = prisma m \<and> config m' = config m \<and> errorCount m' = errorCount m
         \<and> (case r of Inl e \<Rightarrow> queryCount m' = queryCount m
                      | Inr v \<Rightarrow> queryCount m' = Suc (queryCount m))"
proof -
  obtain r1 m1 w1 where e: "ensureConnected m w = (r1, m1, w1)"
    by (metis prod_cases3)
  from ensureConnected_frame [OF e]
  have fr: "prisma m1 = prisma m" "config m1 = config m" "errorCount m1 = errorCount m"
    "queryCount m1 = queryCount m" by simp_all
  show ?thesis
  proof (cases r1)
    case (Inl err)
    with assms e fr show ?thesis by (auto simp: tryBlock_def)
  next
    case (Inr u)
    with assms e fr show ?thesis
      by (auto simp: tryBlock_def callOperation_def dateNow_def Let_def split: sum.splits)
  qed
qed

lemma catchBlock_frame:
  assumes "catchBlock operation name startTime e m w = (r, m', w')"
  shows "prisma m' = prisma m \<and> config m' = config m \<and> errorCount m' = Suc (errorCount m)
         \<and> queryCount m' = queryCount m"
proof -
  let ?m1 = "m\<lparr>errorCount := Suc (errorCount m)\<rparr>"
  have rec: "prisma m3 = prisma m \<and> config m3 = config m \<and> errorCount m3 = Suc (errorCount m)
         \<and> queryCount m3 = queryCount m"
    if "ensureConnected (?m1\<lparr>connected := False\<rparr>) w3 = (r3, m3, w4)" for w3 r3 m3 w4
    using ensureConnected_frame [OF that] by simp
  show ?thesis
    using assms rec
    by (auto simp: catchBlock_def dateNow_def callHandler_def callOperation_def Let_def
             split: option.splits sum.splits bool.splits prod.splits)
qed




section \<open>Consecutive failures\<close>

text \<open>
  Claim C5, as the code has it.  The manager counts failures only in \<open>errorCount\<close>: every
  call whose \<open>try\<close> block throws, whatever the class of the error, adds one to it, and a
  call whose \<open>try\<close> block succeeds adds one to \<open>queryCount\<close> instead.  There is no
  consecutive-error counter, no threshold and no hard reset: no call replaces the wrapped
  client or changes the configuration.
\<close>

theorem executeWithReconnect_counts_errors:
  "case executeWithReconnect operation name m w of (r, m', w') \<Rightarrow>
     prisma m' = prisma m \<and> config m' = config m
     \<and> (case fst (tryBlock operation m (snd (dateNow w))) of
           Inl e \<Rightarrow> errorCount m' = Suc (errorCount m) \<and> queryCount m' = queryCount m
         | Inr v \<Rightarrow> errorCount m' = errorCount m \<and> queryCount m' = Suc (queryCount m))"
proof -
  obtain r1 m1 w1 where t: "tryBlock operation m (snd (dateNow w)) = (r1, m1, w1)"
    by (metis prod_cases3)
  note f1 = tryBlock_frame [OF t]
  show ?thesis
  proof (cases r1)
    case (Inr v)
    with t f1 show ?thesis by (simp add: executeWithReconnect_def dateNow_def)
  next
    case (Inl e)
    obtain r2 m2 w2 where c: "catchBlock operation name (clock w (clockReads w)) e m1 w1 = (r2, m2, w2)"
      by (metis prod_cases3)
    from catchBlock_frame [OF c] f1 Inl t c show ?thesis
      by (simp add: executeWithReconnect_def dateNow_def)
  qed
qed

theorem executeWithReconnect_counts_errors_witness:
  "prisma (fst (snd (executeWithReconnect failingTwice ''user.findMany''
                       connectedManager unreachableWorld))) = prisma connectedManager
   \<and> errorCount (fst (snd (executeWithReconnect failingTwice ''user.findMany''
                             connectedManager unreachableWorld))) = 1"
proof -
  have "fst (tryBlock failingTwice connectedManager (snd (dateNow unreachableWorld))) = Inl refused"
    by (simp add: tryBlock_def ensureConnected_def callOperation_def dateNow_def scenario_defs)
  moreover have "errorCount connectedManager = 0"
    by (simp add: scenario_defs)
  ultimately show ?thesis
    using executeWithReconnect_counts_errors
            [where operation = failingTwice and name = "''user.findMany''"
               and m = connectedManager and w = unreachableWorld]
    by (simp add: case_prod_beta)
qed

text \<open>
  Three consecutive calls fail with errors classified recoverable, each exhausting
  reconnection.  Afterwards \<open>errorCount\<close> is 3, it has not been reset, and the wrapped client
  is still the one given to the constructor: nothing has been recreated.  The only calls
  made on the client are 15 \<open>$connect\<close> and 15 \<open>$disconnect\<close> of the reconnection attempts.
\<close>

theorem three_failures_no_hard_reset:
  "fst threeFailures = Inl (reconnectFailure 3 refused)
   \<and> isRetryableError (reconnectFailure 3 refused) = Inr True
   \<and> errorCount (fst (snd threeFailures)) = 3
   \<and> prisma (fst (snd threeFailures)) = prisma connectedManager
   \<and> connected (fst (snd threeFailures)) = False
   \<and> totalReconnects (fst (snd threeFailures)) = 0
   \<and> connectCalls (snd (snd threeFailures)) = 15
   \<and> disconnectCalls (snd (snd threeFailures)) = 15"
  by code_simp

section \<open>The periodic refresh\<close>

lemma reconnectAttempt_age:
  "reconnectAttempt a (m\<lparr>lastSuccessfulConnection := t\<rparr>) w
   = (case reconnectAttempt a m w of
        (Inl e, m', w') \<Rightarrow> (Inl e, m'\<lparr>lastSuccessfulConnection := t\<rparr>, w')
      | (Inr u, m', w') \<Rightarrow> (Inr u, m', w'))"
proof (cases "connectOutcome w (connectCalls w)")
  case None
  show ?thesis
    unfolding reconnectAttempt_succeeds [OF None] by (simp add: backoffDelay_def)
next
  case (Some e)
  show ?thesis
    unfolding reconnectAttempt_fails [OF Some] by (simp add: backoffDelay_def)
qed

lemma reconnectLoop_age:
  "a \<le> n \<Longrightarrow> reconnectLoop a n (m\<lparr>lastSuccessfulConnection := t\<rparr>) w
   = (case reconnectLoop a n m w of
        (Inl e, m', w') \<Rightarrow> (Inl e, m'\<lparr>lastSuccessfulConnection := t\<rparr>, w')
      | (Inr u, m', w') \<Rightarrow> (Inr u, m', w'))"
proof (induction a n m w rule: reconnectLoop.induct)
  case (1 attempt maxAtt m w)
  obtain r1 m1 w1 where step: "reconnectAttempt attempt (m\<lparr>reconnectAttempts := attempt\<rparr>)
                (emit (Reconnect attempt) w) = (r1, m1, w1)"
    by (metis prod_cases3)
  have swap: "m\<lparr>lastSuccessfulConnection := t, reconnectAttempts := attempt\<rparr>
              = m\<lparr>reconnectAttempts := attempt, lastSuccessfulConnection := t\<rparr>"
    by simp
  have step': "reconnectAttempt attempt (m\<lparr>lastSuccessfulConnection := t, reconnectAttempts := attempt\<rparr>)
                (emit (Reconnect attempt) w)
               = (case r1 of Inl e \<Rightarrow> (Inl e, m1\<lparr>lastSuccessfulConnection := t\<rparr>, w1)
                           | Inr u \<Rightarrow> (Inr u, m1, w1))"
    unfolding swap reconnectAttempt_age step by (simp split: sum.splits)
  show ?case
  proof (cases r1)
    case (Inr u)
    with step step' "1.prems" show ?thesis
      by (subst (1 2) reconnectLoop.simps) simp
  next
    case (Inl e)
    show ?thesis
    proof (cases "attempt = maxAtt")
      case True
      with Inl step step' show ?thesis
        by (subst (1 2) reconnectLoop.simps) simp
    next
      case False
      with "1.prems" have "Suc attempt \<le> maxAtt" by simp
      from "1.IH" [OF "1.prems" step [symmetric] Inl refl False this]
      have IH: "reconnectLoop (Suc attempt) maxAtt (m1\<lparr>lastSuccessfulConnection := t\<rparr>) w1 =
                  (case reconnectLoop (Suc attempt) maxAtt m1 w1 of
                     (Inl e, m', w') \<Rightarrow> (Inl e, m'\<lparr>lastSuccessfulConnection := t\<rparr>, w')
                   | (Inr u, m', w') \<Rightarrow> (Inr u, m', w'))" .
      have l: "reconnectLoop attempt maxAtt (m\<lparr>lastSuccessfulConnection := t\<rparr>) w
               = reconnectLoop (Suc attempt) maxAtt (m1\<lparr>lastSuccessfulConnection := t\<rparr>) w1"
        using Inl step' False "1.prems" by (subst reconnectLoop.simps) simp
      have r: "reconnectLoop attempt maxAtt m w = reconnectLoop (Suc attempt) maxAtt m1 w1"
        using Inl step False "1.prems" by (subst reconnectLoop.simps) simp
      show ?thesis unfolding l r IH ..
    qed
  qed
qed

lemma refreshTick_unfolded:
  "refreshTick m w =
     (case reconnectLoop 1 (orDefault (maxAttempts (reconnect (config m))) 3)
             (m\<lparr>connected := False\<rparr>) (w\<lparr>disconnectCalls := Suc (disconnectCalls w)\<rparr>) of
        (Inr u, m', w') \<Rightarrow> (m', w')
      | (Inl e, m', w') \<Rightarrow> (m'\<lparr>connected := False\<rparr>, w'))"
  by (simp add: refreshTick_def disconnect_eq ensureConnected_def)

lemma refreshTick_first_attempt:
  "Suc (connectCalls w) \<le> connectCalls (snd (refreshTick m w))"
proof -
  let ?n = "orDefault (maxAttempts (reconnect (config m))) 3"
  let ?m0 = "m\<lparr>connected := False\<rparr>"
  let ?w0 = "w\<lparr>disconnectCalls := Suc (disconnectCalls w)\<rparr>"
  have pos: "1 \<le> ?n" by (simp add: orDefault_def)
  obtain r1 m1 w1 where step: "reconnectAttempt 1 (?m0\<lparr>reconnectAttempts := 1\<rparr>)
                (emit (Reconnect 1) ?w0) = (r1, m1, w1)"
    by (metis prod_cases3)
  from reconnectAttempt_frame [OF step]
  have c1: "connectCalls w1 = Suc (connectCalls w)" by (simp add: emit_def)
  obtain r m' w' where run: "reconnectLoop 1 ?n ?m0 ?w0 = (r, m', w')"
    by (metis prod_cases3)
  have "Suc (connectCalls w) \<le> connectCalls w'"
  proof (cases "r1 = Inr () \<or> ?n = 1")
    case True
    with run step pos c1 show ?thesis
      by (subst (asm) reconnectLoop.simps) (auto simp: emit_def split: sum.splits)
  next
    case False
    then obtain e where "r1 = Inl e" by (cases r1) auto
    with False run step pos have "reconnectLoop (Suc 1) ?n m1 w1 = (r, m', w')"
      by (subst (asm) reconnectLoop.simps) simp
    from reconnectLoop_frame [OF this] c1 show ?thesis by simp
  qed
  with run show ?thesis
    unfolding refreshTick_unfolded by (simp split: sum.splits)
qed

text \<open>
  Claim C6, as the code has it.  Every refresh tick performs a plain refresh: it marks the
  manager Disconnected, calls \<open>disconnect\<close>, whose outcome is ignored, and then
  \<open>ensureConnected\<close>, which runs the reconnection protocol with at least one \<open>$connect\<close>; a
  failed refresh leaves the manager Disconnected.  The tick never looks at the connection
  age: whatever \<open>lastSuccessfulConnection\<close> holds, it makes the same calls, emits the same
  events and ends in the same connection state, and it keeps the wrapped client.
\<close>

theorem refreshTick_plain_refresh:
  "refreshTick m w =
     (case disconnect (m\<lparr>connected := False\<rparr>) w of
        (r0, m0, w0) \<Rightarrow>
          (case ensureConnected m0 w0 of
             (Inr u, m', w') \<Rightarrow> (m', w')
           | (Inl e, m', w') \<Rightarrow> (m'\<lparr>connected := False\<rparr>, w')))
   \<and> Suc (disconnectCalls w) \<le> disconnectCalls (snd (refreshTick m w))
   \<and> Suc (connectCalls w) \<le> connectCalls (snd (refreshTick m w))
   \<and> prisma (fst (refreshTick m w)) = prisma m
   \<and> snd (refreshTick (m\<lparr>lastSuccessfulConnection := t\<rparr>) w) = snd (refreshTick m w)
   \<and> connected (fst (refreshTick (m\<lparr>lastSuccessfulConnection := t\<rparr>) w))
       = connected (fst (refreshTick m w))"
proof -
  let ?n = "orDefault (maxAttempts (reconnect (config m))) 3"
  let ?m0 = "m\<lparr>connected := False\<rparr>"
  let ?w0 = "w\<lparr>disconnectCalls := Suc (disconnectCalls w)\<rparr>"
  have pos: "1 \<le> ?n" by (simp add: orDefault_def)
  obtain r m' w' where run: "reconnectLoop 1 ?n ?m0 ?w0 = (r, m', w')"
    by (metis prod_cases3)
  have shape: "refreshTick m w =
     (case disconnect (m\<lparr>connected := False\<rparr>) w of
        (r0, m0, w0) \<Rightarrow>
          (case ensureConnected m0 w0 of
             (Inr u, m', w') \<Rightarrow> (m', w')
           | (Inl e, m', w') \<Rightarrow> (m'\<lparr>connected := False\<rparr>, w')))"
    by (simp add: refreshTick_def disconnect_eq)
  have swap: "m\<lparr>lastSuccessfulConnection := t, connected := False\<rparr>
              = ?m0\<lparr>lastSuccessfulConnection := t\<rparr>"
    by simp
  have aged: "refreshTick (m\<lparr>lastSuccessfulConnection := t\<rparr>) w =
     (case r of Inr u \<Rightarrow> (m', w')
              | Inl e \<Rightarrow> (m'\<lparr>lastSuccessfulConnection := t, connected := False\<rparr>, w'))"
    unfolding refreshTick_unfolded
    using reconnectLoop_age [where m = ?m0 and t = t and w = ?w0, OF pos] run
    by (simp add: swap split: sum.splits)
  have plain: "refreshTick m w =
     (case r of Inr u \<Rightarrow> (m', w') | Inl e \<Rightarrow> (m'\<lparr>connected := False\<rparr>, w'))"
    unfolding refreshTick_unfolded using run by (simp split: sum.splits)
  from reconnectLoop_frame [OF run]
  have keep: "prisma m' = prisma m" by simp
  have calls: "Suc (disconnectCalls w) \<le> disconnectCalls w'"
  proof -
    obtain r1 m1 w1 where step: "reconnectAttempt 1 (?m0\<lparr>reconnectAttempts := 1\<rparr>)
                (emit (Reconnect 1) ?w0) = (r1, m1, w1)"
      by (metis prod_cases3)
    have mono: "disconnectCalls v \<le> disconnectCalls v'"
      if "reconnectLoop a k x v = (r', x', v')" for a k x v r' x' v'
      using that
    proof (induction a k x v arbitrary: r' x' v' rule: reconnectLoop.induct)
      case (1 attempt maxAtt x v)
      obtain r2 x2 v2 where s2: "reconnectAttempt attempt (x\<lparr>reconnectAttempts := attempt\<rparr>)
                (emit (Reconnect attempt) v) = (r2, x2, v2)"
        by (metis prod_cases3)
      have d2: "disconnectCalls v \<le> disconnectCalls v2"
        using s2
        by (cases "connectOutcome (emit (Reconnect attempt) v)
                     (connectCalls (emit (Reconnect attempt) v))")
           (auto simp: reconnectAttempt_succeeds reconnectAttempt_fails emit_def)
      show ?case
      proof (cases "attempt \<le> maxAtt \<and> (\<exists>e. r2 = Inl e) \<and> attempt \<noteq> maxAtt")
        case True
        then obtain e where e: "r2 = Inl e" by blast
        with True s2 "1.prems" have "reconnectLoop (Suc attempt) maxAtt x2 v2 = (r', x', v')"
          by (subst (asm) reconnectLoop.simps) simp
        from "1.IH" [OF _ s2 [symmetric] e refl _ this] True d2 show ?thesis by simp
      next
        case False
        with s2 "1.prems" d2 show ?thesis
          by (subst (asm) reconnectLoop.simps) (auto simp: emit_def split: sum.splits if_splits)
      qed
    qed
    from mono [OF run] show ?thesis by simp
  qed
  have c2: "Suc (disconnectCalls w) \<le> disconnectCalls (snd (refreshTick m w))"
    unfolding plain using calls by (simp split: sum.splits)
  have c4: "prisma (fst (refreshTick m w)) = prisma m"
    unfolding plain using keep by (simp split: sum.splits)
  have c5: "snd (refreshTick (m\<lparr>lastSuccessfulConnection := t\<rparr>) w) = snd (refreshTick m w)"
    unfolding aged plain by (simp split: sum.splits)
  have c6: "connected (fst (refreshTick (m\<lparr>lastSuccessfulConnection := t\<rparr>) w))
            = connected (fst (refreshTick m w))"
    unfolding aged plain by (simp split: sum.splits)
  show ?thesis
    by (intro conjI shape c2 refreshTick_first_attempt c4 c5 c6)
qed

theorem refreshTick_plain_refresh_witness:
  "snd (refreshTick (connectedManager\<lparr>lastSuccessfulConnection := Some (- 5)\<rparr>) reachableWorld)
     = snd (refreshTick connectedManager reachableWorld)
   \<and> prisma (fst (refreshTick connectedManager reachableWorld)) = prisma connectedManager"
  using refreshTick_plain_refresh
          [where m = connectedManager and w = reachableWorld and t = "Some (- 5)"]
  by blast

text \<open>
  A tick 19 hours after the last successful connection, past the 18 hours at which the
  claim promises a hard reset, is a plain refresh like any other: one \<open>$disconnect\<close> by the
  tick and one by the first reconnection attempt, the default delay, one \<open>$connect\<close> on the
  same client, and the events of a successful reconnection.
\<close>

theorem refreshTick_ignores_age:
  "lastSuccessfulConnection connectedManager = Some 0
   \<and> clock lateWorld 0 - 0 \<ge> 18 * 60 * 60 * 1000
   \<and> prisma (fst (refreshTick connectedManager lateWorld)) = prisma connectedManager
   \<and> totalReconnects (fst (refreshTick connectedManager lateWorld)) = 1
   \<and> emitted (snd (refreshTick connectedManager lateWorld))
       = [Reconnect 1, Connect, ReconnectSuccess]
   \<and> slept (snd (refreshTick connectedManager lateWorld)) = [1000]
   \<and> connectCalls (snd (refreshTick connectedManager lateWorld)) = 1
   \<and> disconnectCalls (snd (refreshTick connectedManager lateWorld)) = 2"
  by (simp add: refreshTick_def lifecycle_defs world_defs scenario_defs reconnectLoop.simps)

end
